theory Spec2Isabelle
  imports Main "HOL-Library.Word"
begin

unbundle bit_operations_syntax

section \<open>Strings as the C++ code sees them\<close>

text \<open>
  A \<open>std::string\<close> is a list of bytes. Operations of the standard library that throw or
  have undefined behaviour return a \<open>fault\<close> on the left of a sum, so every such path is
  a branch of the model.
\<close>

datatype fault = OutOfRange | UndefinedBehaviour

text \<open>
  \<open>std::string::rfind(char)\<close>: the index of the last occurrence, \<open>None\<close> standing for
  \<open>std::string::npos\<close>.
\<close>

fun rfind :: "string \<Rightarrow> char \<Rightarrow> nat option" where
  "rfind [] c = None"
| "rfind (x # xs) c =
     (case rfind xs c of
        Some i \<Rightarrow> Some (Suc i)
      | None \<Rightarrow> (if x = c then Some 0 else None))"

text \<open>
  \<open>std::string::substr(pos, count)\<close>: throws \<open>std::out_of_range\<close> when \<open>pos\<close> is
  beyond the size; \<open>count = None\<close> is the default \<open>npos\<close> (up to the end).
\<close>

definition substr :: "string \<Rightarrow> nat \<Rightarrow> nat option \<Rightarrow> fault + string" where
  "substr s pos count =
     (if length s < pos then Inl OutOfRange
      else Inr (case count of None \<Rightarrow> drop pos s | Some k \<Rightarrow> take k (drop pos s)))"

text \<open>
  \<open>c_str()\<close> handed to a C function: the bytes up to the first NUL.
\<close>

definition c_str :: "string \<Rightarrow> string" where
  "c_str s = takeWhile (\<lambda>c. c \<noteq> CHR 0x00) s"

section \<open>Path string helpers\<close>

text \<open>
  \<open>append_sep\<close>: \<open>path->back()\<close> on an empty string is undefined behaviour; otherwise a
  slash is appended when the last byte is not one.
\<close>

definition append_sep :: "string \<Rightarrow> fault + string" where
  "append_sep path =
     (if path = [] then Inl UndefinedBehaviour
      else if last path \<noteq> CHR ''/'' then Inr (path @ ''/'')
      else Inr path)"

text \<open>
  \<open>find_ext\<close>: the result pair is the returned flag and the value left in \<open>*ext\<close>.
\<close>

definition find_ext :: "string \<Rightarrow> fault + (bool \<times> string)" where
  "find_ext filename =
     (case rfind filename CHR ''.'' of
        None \<Rightarrow> Inr (False, [])
      | Some found \<Rightarrow>
          (case substr filename (found + 1) None of
             Inl e \<Rightarrow> Inl e
           | Inr s \<Rightarrow> Inr (True, s)))"

text \<open>
  \<open>replace_ext\<close>: the value left in \<open>*filename\<close> (which is also what is returned).
\<close>

definition replace_ext :: "string \<Rightarrow> string \<Rightarrow> fault + string" where
  "replace_ext filename ext =
     (case rfind filename CHR ''.'' of
        None \<Rightarrow> Inr ((filename @ ''.'') @ ext)
      | Some found \<Rightarrow>
          (case substr filename 0 (Some (found + 1)) of
             Inl e \<Rightarrow> Inl e
           | Inr s \<Rightarrow> Inr (s @ ext)))"

text \<open>
  \<open>remove_path\<close>: the string is copied as a C string (\<open>new_strdup\<close>), so it ends at
  its first NUL, and \<open>basename\<close> of \<open>libgen.h\<close> is applied. The C library function is
  modelled after its glibc implementation: the empty string gives a dot, a string of
  slashes gives one slash, otherwise trailing slashes are dropped and the bytes after the
  last remaining slash are returned.
\<close>

definition strip_slashes :: "string \<Rightarrow> string" where
  "strip_slashes s = rev (dropWhile (\<lambda>c. c = CHR ''/'') (rev s))"

definition basename :: "string \<Rightarrow> string" where
  "basename path =
     (if path = [] then ''.''
      else if strip_slashes path = [] then ''/''
      else rev (takeWhile (\<lambda>c. c \<noteq> CHR ''/'') (rev (strip_slashes path))))"

definition remove_path :: "string \<Rightarrow> string" where
  "remove_path path = basename (c_str path)"

text \<open>
  \<open>dirname\<close> of the C library, after glibc: without a slash the result is a dot; a
  trailing run of slashes is skipped before the last slash is looked for; the result is
  the part before that slash without its own trailing slashes, and one slash (two, when
  the last slash is the second of exactly two leading ones) when nothing else is left.
\<close>

definition before_last_slash :: "string \<Rightarrow> string" where
  "before_last_slash s = rev (tl (dropWhile (\<lambda>c. c \<noteq> CHR ''/'') (rev s)))"

definition dirname :: "string \<Rightarrow> string" where
  "dirname path =
     (if CHR ''/'' \<notin> set path then ''.''
      else
        let s = (if last path = CHR ''/'' \<and> 1 < length path \<and> strip_slashes path \<noteq> []
                 then strip_slashes path else path)
        in if CHR ''/'' \<notin> set s then ''.''
           else
             let b = before_last_slash s
             in if strip_slashes b = []
                then (if length b = 1 then take 2 path else take 1 path)
                else strip_slashes b)"

section \<open>Destination formats\<close>

text \<open>
  The enumeration \<open>FILETYPE\<close> and the class \<open>ffmpegfs_format\<close> are declared in a header;
  their members are the ones this file uses. \<open>AVCodecID\<close> is FFmpeg's enumeration, with
  the values that occur here.
\<close>

datatype FILETYPE =
    FILETYPE_UNKNOWN
  | FILETYPE_MP3
  | FILETYPE_MP4
  | FILETYPE_WAV
  | FILETYPE_OGG
  | FILETYPE_WEBM
  | FILETYPE_MOV
  | FILETYPE_AIFF
  | FILETYPE_OPUS
  | FILETYPE_PRORES

datatype AVCodecID =
    AV_CODEC_ID_NONE
  | AV_CODEC_ID_MP3
  | AV_CODEC_ID_AAC
  | AV_CODEC_ID_H264
  | AV_CODEC_ID_PCM_S16LE
  | AV_CODEC_ID_PCM_S16BE
  | AV_CODEC_ID_VORBIS
  | AV_CODEC_ID_THEORA
  | AV_CODEC_ID_OPUS
  | AV_CODEC_ID_VP9
  | AV_CODEC_ID_PRORES
  | AV_CODEC_ID_MJPEG
  | AV_CODEC_ID_PNG
  | AV_CODEC_ID_BMP

record ffmpegfs_format =
  m_desttype :: string
  m_audio_codec_id :: AVCodecID
  m_video_codec_id :: AVCodecID
  m_filetype :: FILETYPE
  m_format_name :: string

text \<open>
  The global \<open>params\<close>: the mount path and the method \<open>current_format\<close>, which gives
  the format in force for a file name.
\<close>

record ffmpegfs_params =
  m_mountpath :: string
  current_format :: "string \<Rightarrow> ffmpegfs_format"

definition get_destname :: "ffmpegfs_params \<Rightarrow> string \<Rightarrow> fault + string" where
  "get_destname params filename =
     (let destname = remove_path filename
      in case replace_ext destname (m_format_name (current_format params filename)) of
           Inl e \<Rightarrow> Inl e
         | Inr destname' \<Rightarrow> Inr (m_mountpath params @ destname'))"

text \<open>
  \<open>strcasecmp\<close> on two \<open>std::string\<close>s calls the C function on their \<open>c_str()\<close>. The C
  function compares byte by byte after \<open>tolower\<close> (C locale) and returns the difference
  at the first mismatch.
\<close>

definition tolower :: "char \<Rightarrow> char" where
  "tolower c =
     (if 65 \<le> (of_char c :: nat) \<and> (of_char c :: nat) \<le> 90
      then char_of (of_char c + 32 :: nat) else c)"

fun strcasecmp_cstr :: "string \<Rightarrow> string \<Rightarrow> int" where
  "strcasecmp_cstr [] [] = 0"
| "strcasecmp_cstr [] (y # ys) = - int (of_char (tolower y))"
| "strcasecmp_cstr (x # xs) [] = int (of_char (tolower x))"
| "strcasecmp_cstr (x # xs) (y # ys) =
     (if tolower x = tolower y then strcasecmp_cstr xs ys
      else int (of_char (tolower x)) - int (of_char (tolower y)))"

definition strcasecmp :: "string \<Rightarrow> string \<Rightarrow> int" where
  "strcasecmp s1 s2 = strcasecmp_cstr (c_str s1) (c_str s2)"

definition get_filetype :: "string \<Rightarrow> FILETYPE" where
  "get_filetype desttype =
     (if strcasecmp desttype ''mp3'' = 0 then FILETYPE_MP3
      else if strcasecmp desttype ''mp4'' = 0 then FILETYPE_MP4
      else if strcasecmp desttype ''wav'' = 0 then FILETYPE_WAV
      else if strcasecmp desttype ''ogg'' = 0 then FILETYPE_OGG
      else if strcasecmp desttype ''webm'' = 0 then FILETYPE_WEBM
      else if strcasecmp desttype ''mov'' = 0 then FILETYPE_MOV
      else if strcasecmp desttype ''aiff'' = 0 then FILETYPE_AIFF
      else if strcasecmp desttype ''opus'' = 0 then FILETYPE_OPUS
      else if strcasecmp desttype ''prores'' = 0 then FILETYPE_PRORES
      else FILETYPE_UNKNOWN)"

text \<open>
  \<open>split\<close> is only called with the one-byte pattern \<open>","\<close>, so the regular expression
  is modelled as a separator byte. \<open>std::sregex_token_iterator\<close> with submatch \<open>-1\<close>
  yields the pieces between the matches, and the piece after the last match only when
  it is not empty; an input without a match is yielded whole.
\<close>

fun fields :: "char \<Rightarrow> string \<Rightarrow> string list" where
  "fields sep [] = [[]]"
| "fields sep (c # cs) =
     (if c = sep then [] # fields sep cs
      else (case fields sep cs of
              f # fs \<Rightarrow> (c # f) # fs
            | [] \<Rightarrow> [[c]]))"

definition split :: "string \<Rightarrow> char \<Rightarrow> string list" where
  "split input sep =
     (let fs = fields sep input
      in if 1 < length fs \<and> last fs = [] then butlast fs else fs)"

text \<open>
  The loop of \<open>get_filetype_from_list\<close>: it goes on while tokens are left and
  \<open>filetype != FILETYPE_UNKNOWN\<close>.
\<close>

fun get_filetype_from_list_loop :: "string list \<Rightarrow> FILETYPE \<Rightarrow> FILETYPE" where
  "get_filetype_from_list_loop [] filetype = filetype"
| "get_filetype_from_list_loop (t # ts) filetype =
     (if filetype \<noteq> FILETYPE_UNKNOWN
      then get_filetype_from_list_loop ts (get_filetype t)
      else filetype)"

definition get_filetype_from_list :: "string \<Rightarrow> FILETYPE" where
  "get_filetype_from_list desttypelist =
     get_filetype_from_list_loop (split desttypelist CHR '','') FILETYPE_UNKNOWN"

text \<open>
  \<open>get_codecs\<close>: the returned status and the object behind \<open>format\<close> after the call.
\<close>

definition get_codecs :: "string \<Rightarrow> ffmpegfs_format \<Rightarrow> int \<times> ffmpegfs_format" where
  "get_codecs desttype format =
     (case get_filetype desttype of
        FILETYPE_MP3 \<Rightarrow>
          (- 1, format\<lparr>m_desttype := desttype,
                       m_audio_codec_id := AV_CODEC_ID_MP3,
                       m_video_codec_id := AV_CODEC_ID_NONE,
                       m_filetype := FILETYPE_MP3,
                       m_format_name := ''mp3''\<rparr>)
      | FILETYPE_MP4 \<Rightarrow>
          (- 1, format\<lparr>m_desttype := desttype,
                       m_audio_codec_id := AV_CODEC_ID_AAC,
                       m_video_codec_id := AV_CODEC_ID_H264,
                       m_filetype := FILETYPE_MP4,
                       m_format_name := ''mp4''\<rparr>)
      | FILETYPE_WAV \<Rightarrow>
          (- 1, format\<lparr>m_desttype := desttype,
                       m_audio_codec_id := AV_CODEC_ID_PCM_S16LE,
                       m_video_codec_id := AV_CODEC_ID_NONE,
                       m_filetype := FILETYPE_WAV,
                       m_format_name := ''wav''\<rparr>)
      | FILETYPE_OGG \<Rightarrow>
          (- 1, format\<lparr>m_desttype := desttype,
                       m_audio_codec_id := AV_CODEC_ID_VORBIS,
                       m_video_codec_id := AV_CODEC_ID_THEORA,
                       m_filetype := FILETYPE_OGG,
                       m_format_name := ''ogg''\<rparr>)
      | FILETYPE_WEBM \<Rightarrow>
          (- 1, format\<lparr>m_desttype := desttype,
                       m_audio_codec_id := AV_CODEC_ID_OPUS,
                       m_video_codec_id := AV_CODEC_ID_VP9,
                       m_filetype := FILETYPE_WEBM,
                       m_format_name := ''webm''\<rparr>)
      | FILETYPE_MOV \<Rightarrow>
          (- 1, format\<lparr>m_desttype := desttype,
                       m_audio_codec_id := AV_CODEC_ID_AAC,
                       m_video_codec_id := AV_CODEC_ID_H264,
                       m_filetype := FILETYPE_MOV,
                       m_format_name := ''mov''\<rparr>)
      | FILETYPE_AIFF \<Rightarrow>
          (- 1, format\<lparr>m_desttype := desttype,
                       m_audio_codec_id := AV_CODEC_ID_PCM_S16BE,
                       m_video_codec_id := AV_CODEC_ID_NONE,
                       m_filetype := FILETYPE_AIFF,
                       m_format_name := ''aiff''\<rparr>)
      | FILETYPE_OPUS \<Rightarrow>
          (- 1, format\<lparr>m_desttype := desttype,
                       m_audio_codec_id := AV_CODEC_ID_OPUS,
                       m_video_codec_id := AV_CODEC_ID_NONE,
                       m_filetype := FILETYPE_OPUS,
                       m_format_name := ''opus''\<rparr>)
      | FILETYPE_PRORES \<Rightarrow>
          (- 1, format\<lparr>m_desttype := desttype,
                       m_audio_codec_id := AV_CODEC_ID_PCM_S16LE,
                       m_video_codec_id := AV_CODEC_ID_PRORES,
                       m_filetype := FILETYPE_PRORES,
                       m_format_name := ''mov''\<rparr>)
      | FILETYPE_UNKNOWN \<Rightarrow> (0, format))"

text \<open>
  The token by which \<open>get_filetype\<close> recognises each file type: the literal of its
  branch. \<open>FILETYPE_UNKNOWN\<close> has none.
\<close>

fun canonical_token :: "FILETYPE \<Rightarrow> string" where
  "canonical_token FILETYPE_MP3 = ''mp3''"
| "canonical_token FILETYPE_MP4 = ''mp4''"
| "canonical_token FILETYPE_WAV = ''wav''"
| "canonical_token FILETYPE_OGG = ''ogg''"
| "canonical_token FILETYPE_WEBM = ''webm''"
| "canonical_token FILETYPE_MOV = ''mov''"
| "canonical_token FILETYPE_AIFF = ''aiff''"
| "canonical_token FILETYPE_OPUS = ''opus''"
| "canonical_token FILETYPE_PRORES = ''prores''"
| "canonical_token FILETYPE_UNKNOWN = []"

text \<open>
  A format object before \<open>get_codecs\<close> has filled it, and the parameters of a mount
  whose format is the one \<open>get_codecs\<close> builds for \<open>"mp3"\<close>.
\<close>

definition blank_format :: ffmpegfs_format where
  "blank_format =
     \<lparr>m_desttype = [], m_audio_codec_id = AV_CODEC_ID_NONE,
      m_video_codec_id = AV_CODEC_ID_NONE, m_filetype = FILETYPE_UNKNOWN,
      m_format_name = []\<rparr>"

definition mp3_params :: "string \<Rightarrow> ffmpegfs_params" where
  "mp3_params mountpath =
     \<lparr>m_mountpath = mountpath,
      current_format = (\<lambda>filename. snd (get_codecs ''mp3'' blank_format))\<rparr>"

section \<open>Directory trees and mount points\<close>

text \<open>
  The system calls are parameters. \<open>mkdir\<close> takes the file system, the path and the
  mode and gives its return value, the value of \<open>errno\<close> after the call (which
  \<open>mktree\<close> has set to 0 before it) and the new file system.
\<close>

type_synonym mode_t = "32 word"

definition EEXIST :: int where "EEXIST = 17"
definition ENOENT :: int where "ENOENT = 2"
definition PATH_MAX :: nat where "PATH_MAX = 4096"

text \<open>
  \<open>strtok\<close> called until it returns null: the non-empty runs of bytes between the
  delimiters.
\<close>

definition strtok_all :: "string \<Rightarrow> char \<Rightarrow> string list" where
  "strtok_all s delim = filter (\<lambda>t. t \<noteq> []) (fields delim s)"

text \<open>
  The loop of \<open>mktree\<close>. \<open>dir\<close> is a buffer of \<open>PATH_MAX\<close> bytes filled by \<open>strcat\<close>,
  so a path that does not fit with its terminating NUL overruns it. \<open>new_strdup\<close>
  allocates with \<open>new\<close> and so never returns null: the \<open>ENOMEM\<close> return is not
  reachable and has no branch here.
\<close>

fun mktree_loop ::
  "('fs \<Rightarrow> string \<Rightarrow> mode_t \<Rightarrow> (int \<times> int) \<times> 'fs) \<Rightarrow> mode_t \<Rightarrow> 'fs \<Rightarrow> string \<Rightarrow> int \<Rightarrow>
   string list \<Rightarrow> fault + (int \<times> 'fs)" where
  "mktree_loop mkdir mode fs dir status [] = Inr (status, fs)"
| "mktree_loop mkdir mode fs dir status (p # ps) =
     (let dir' = (dir @ ''/'') @ p
      in if PATH_MAX \<le> length dir' then Inl UndefinedBehaviour
         else (case mkdir fs dir' mode of
                 ((newstat, errno), fs') \<Rightarrow>
                   if status = 0 \<and> newstat \<noteq> 0 \<and> errno \<noteq> EEXIST
                   then Inr (- 1, fs')
                   else mktree_loop mkdir mode fs' dir' newstat ps))"

definition mktree ::
  "('fs \<Rightarrow> string \<Rightarrow> mode_t \<Rightarrow> (int \<times> int) \<times> 'fs) \<Rightarrow> 'fs \<Rightarrow> string \<Rightarrow> mode_t \<Rightarrow>
   fault + (int \<times> 'fs)" where
  "mktree mkdir fs filename mode =
     mktree_loop mkdir mode fs [] 0 (strtok_all (c_str filename) CHR ''/'')"

text \<open>
  A file system to run \<open>mktree\<close> on: the list of the directories that exist besides the
  root. \<open>mkdir\<close> fails with \<open>EEXIST\<close> on a directory that exists and with \<open>ENOENT\<close>
  when the parent is missing, and adds the directory otherwise.
\<close>

definition mkdir_dirs :: "string list \<Rightarrow> string \<Rightarrow> mode_t \<Rightarrow> (int \<times> int) \<times> string list" where
  "mkdir_dirs fs d mode =
     (if d \<in> set fs then ((- 1, EEXIST), fs)
      else if dirname d \<noteq> ''/'' \<and> dirname d \<notin> set fs then ((- 1, ENOENT), fs)
      else ((0, 0), fs @ [d]))"

text \<open>
  \<open>struct stat\<close> with the members \<open>is_mount\<close> reads; \<open>stat\<close> is a parameter giving
  \<open>None\<close> where the call returns \<open>-1\<close>.
\<close>

record stat =
  st_dev :: "64 word"
  st_ino :: "64 word"
  st_mode :: "32 word"

definition S_IFDIR :: "32 word" where "S_IFDIR = 0x4000"
definition S_IFREG :: "32 word" where "S_IFREG = 0x8000"

text \<open>
  The file kind is the field of \<open>st_mode\<close> under the mask \<open>S_IFMT\<close>; the macros
  \<open>S_ISDIR\<close> and \<open>S_ISREG\<close> of \<open>sys/stat.h\<close> compare that field.
\<close>

definition S_IFMT :: "32 word" where "S_IFMT = 0xF000"

definition S_ISDIR :: "32 word \<Rightarrow> bool" where
  "S_ISDIR m \<longleftrightarrow> m AND S_IFMT = S_IFDIR"

definition S_ISREG :: "32 word \<Rightarrow> bool" where
  "S_ISREG m \<longleftrightarrow> m AND S_IFMT = S_IFREG"

text \<open>
  \<open>is_mount\<close>: each \<open>throw -1\<close> is caught at the end and becomes the return value.
  The messages written to \<open>stderr\<close> are left out.
\<close>

definition is_mount :: "(string \<Rightarrow> stat option) \<Rightarrow> string \<Rightarrow> int" where
  "is_mount stat_call filename =
     (let parent_name = dirname (c_str filename)
      in case stat_call (c_str filename) of
           None \<Rightarrow> - 1
         | Some file_stat \<Rightarrow>
             if st_mode file_stat AND S_IFDIR = 0 then - 1
             else (case stat_call parent_name of
                     None \<Rightarrow> - 1
                   | Some parent_stat \<Rightarrow>
                       if st_dev file_stat \<noteq> st_dev parent_stat \<or>
                          (st_dev file_stat = st_dev parent_stat \<and>
                           st_ino file_stat = st_ino parent_stat)
                       then 1 else 0))"

text \<open>
  A small tree to run \<open>is_mount\<close> on: the root, a home directory with a regular file
  in it on the root's device, and a directory \<open>/mnt/usb\<close> on a device of its own.
\<close>

definition stat_tree :: "string \<Rightarrow> stat option" where
  "stat_tree p =
     (if p = ''/'' then Some \<lparr>st_dev = 2049, st_ino = 2, st_mode = S_IFDIR OR 0x1ED\<rparr>
      else if p = ''/home'' then Some \<lparr>st_dev = 2049, st_ino = 11, st_mode = S_IFDIR OR 0x1ED\<rparr>
      else if p = ''/home/notes.txt''
        then Some \<lparr>st_dev = 2049, st_ino = 57, st_mode = S_IFREG OR 0x1A4\<rparr>
      else if p = ''/mnt'' then Some \<lparr>st_dev = 2049, st_ino = 12, st_mode = S_IFDIR OR 0x1ED\<rparr>
      else if p = ''/mnt/usb'' then Some \<lparr>st_dev = 2065, st_ino = 2, st_mode = S_IFDIR OR 0x1ED\<rparr>
      else None)"

section \<open>Facts about the string primitives\<close>

lemma rfind_None_iff: "rfind s c = None \<longleftrightarrow> c \<notin> set s"
  by (induction s) (auto split: option.splits)

lemma rfind_last_occurrence: "c \<notin> set post \<Longrightarrow> rfind (pre @ c # post) c = Some (length pre)"
proof (induction pre)
  case Nil
  then have "rfind post c = None" by (simp add: rfind_None_iff)
  then show ?case by simp
next
  case (Cons x pre)
  then show ?case by simp
qed

lemma rfind_Some_decompose:
  "rfind s c = Some i \<Longrightarrow> \<exists>pre post. s = pre @ c # post \<and> c \<notin> set post \<and> length pre = i"
proof (induction s arbitrary: i)
  case Nil
  then show ?case by simp
next
  case (Cons x xs)
  show ?case
  proof (cases "rfind xs c")
    case None
    with Cons.prems have "x = c" "i = 0" by (auto split: if_splits)
    moreover from None have "c \<notin> set xs" by (simp add: rfind_None_iff)
    ultimately have "x # xs = [] @ c # xs \<and> c \<notin> set xs \<and> length ([]::string) = i" by simp
    then show ?thesis by blast
  next
    case (Some j)
    with Cons.prems have i: "i = Suc j" by simp
    from Cons.IH [OF Some] obtain pre post
      where "xs = pre @ c # post" "c \<notin> set post" "length pre = j" by blast
    then have "x # xs = (x # pre) @ c # post \<and> c \<notin> set post \<and> length (x # pre) = i"
      using i by simp
    then show ?thesis by blast
  qed
qed

lemma replace_ext_no_dot: "CHR ''.'' \<notin> set f \<Longrightarrow> replace_ext f e = Inr (f @ ''.'' @ e)"
  by (simp add: replace_ext_def rfind_None_iff [symmetric])

lemma replace_ext_last_dot:
  "CHR ''.'' \<notin> set post \<Longrightarrow> replace_ext (pre @ ''.'' @ post) e = Inr (pre @ ''.'' @ e)"
  using rfind_last_occurrence [of "CHR ''.''" post pre]
  by (simp add: replace_ext_def substr_def)

lemma find_ext_last_dot:
  "CHR ''.'' \<notin> set post \<Longrightarrow> find_ext (pre @ ''.'' @ post) = Inr (True, post)"
  using rfind_last_occurrence [of "CHR ''.''" post pre]
  by (simp add: find_ext_def substr_def)

lemma replace_ext_cases:
  "(CHR ''.'' \<notin> set f \<and> replace_ext f e = Inr (f @ ''.'' @ e)) \<or>
   (\<exists>pre post. f = pre @ ''.'' @ post \<and> CHR ''.'' \<notin> set post \<and>
      replace_ext f e = Inr (pre @ ''.'' @ e))"
proof (cases "rfind f CHR ''.''")
  case None
  then have "CHR ''.'' \<notin> set f" by (simp add: rfind_None_iff)
  then show ?thesis by (simp add: replace_ext_no_dot)
next
  case (Some i)
  from rfind_Some_decompose [OF Some] obtain pre post
    where f: "f = pre @ ''.'' @ post" and nd: "CHR ''.'' \<notin> set post" by auto
  from nd have "replace_ext (pre @ ''.'' @ post) e = Inr (pre @ ''.'' @ e)"
    by (rule replace_ext_last_dot)
  with f nd show ?thesis by blast
qed

section \<open>Extension replacement\<close>

text \<open>
  C8. \<open>replace_ext\<close> never throws; a file name with a dot keeps everything up to and
  including its last dot and gets the new extension after it; a file name without a dot
  gets a dot and the new extension appended; \<open>replace_ext("archive", "mp3")\<close> is
  \<open>"archive.mp3"\<close>.
\<close>

theorem replace_ext_total_shape:
  "(\<exists>r. replace_ext f e = Inr r) \<and>
   (CHR ''.'' \<notin> set f \<longrightarrow> replace_ext f e = Inr (f @ ''.'' @ e)) \<and>
   (\<forall>pre post. f = pre @ ''.'' @ post \<and> CHR ''.'' \<notin> set post \<longrightarrow>
      replace_ext f e = Inr (pre @ ''.'' @ e)) \<and>
   replace_ext ''archive'' ''mp3'' = Inr ''archive.mp3''"
proof -
  have total: "\<exists>r. replace_ext f e = Inr r"
    using replace_ext_cases [of f e] by auto
  have nodot: "CHR ''.'' \<notin> set f \<longrightarrow> replace_ext f e = Inr (f @ ''.'' @ e)"
    by (simp add: replace_ext_no_dot)
  have dot: "\<forall>pre post. f = pre @ ''.'' @ post \<and> CHR ''.'' \<notin> set post \<longrightarrow>
      replace_ext f e = Inr (pre @ ''.'' @ e)"
    using replace_ext_last_dot by blast
  have ex: "replace_ext ''archive'' ''mp3'' = Inr ''archive.mp3''"
    by (simp add: replace_ext_def)
  from total nodot dot ex show ?thesis by blast
qed

text \<open>
  Witness for C8: a name with two dots keeps everything through the last one, and a name
  without a dot gets one.
\<close>

theorem replace_ext_total_shape_witness:
  "replace_ext ''track.v2.flac'' ''mp3'' = Inr ''track.v2.mp3'' \<and>
   replace_ext ''archive'' ''ogg'' = Inr ''archive.ogg''"
proof -
  have a: "''track.v2.flac'' = ''track.v2'' @ ''.'' @ ''flac'' \<and> CHR ''.'' \<notin> set ''flac''"
    by simp
  have b: "CHR ''.'' \<notin> set ''archive''" by simp
  from replace_ext_total_shape [of "''track.v2.flac''" "''mp3''"] a
  have "replace_ext ''track.v2.flac'' ''mp3'' = Inr (''track.v2'' @ ''.'' @ ''mp3'')"
    by blast
  moreover from replace_ext_total_shape [of "''archive''" "''ogg''"] b
  have "replace_ext ''archive'' ''ogg'' = Inr (''archive'' @ ''.'' @ ''ogg'')"
    by blast
  ultimately show ?thesis by simp
qed

text \<open>
  Counterexample to C5 as stated (for any extension): with the extension \<open>"tar.gz"\<close>
  the second replacement cuts after the dot inside the extension that the first one
  appended.
\<close>

theorem replace_ext_twice_counterexample:
  "replace_ext ''a'' ''tar.gz'' = Inr ''a.tar.gz'' \<and>
   replace_ext ''a.tar.gz'' ''tar.gz'' = Inr ''a.tar.tar.gz'' \<and>
   replace_ext ''a.tar.gz'' ''tar.gz'' \<noteq> replace_ext ''a'' ''tar.gz''"
  by (simp add: replace_ext_def substr_def)

text \<open>
  C5, amended. For any file name and any target extension that contains no dot,
  replacing the extension twice in succession gives the same string as replacing it
  once.
\<close>

theorem replace_ext_idempotent_dotless:
  assumes "CHR ''.'' \<notin> set e"
  shows "\<exists>g. replace_ext f e = Inr g \<and> replace_ext g e = Inr g"
proof -
  from replace_ext_cases [of f e] obtain pre
    where first: "replace_ext f e = Inr (pre @ ''.'' @ e)" by auto
  from assms have "replace_ext (pre @ ''.'' @ e) e = Inr (pre @ ''.'' @ e)"
    by (rule replace_ext_last_dot)
  with first show ?thesis by blast
qed

text \<open>
  Witness for C5: the extension \<open>"mp3"\<close> has no dot.
\<close>

theorem replace_ext_idempotent_dotless_witness:
  "CHR ''.'' \<notin> set ''mp3'' \<and>
   (\<exists>g. replace_ext ''song.flac'' ''mp3'' = Inr g \<and> replace_ext g ''mp3'' = Inr g)"
proof -
  have h: "CHR ''.'' \<notin> set ''mp3''" by simp
  from replace_ext_idempotent_dotless [OF h, of "''song.flac''"] h show ?thesis by blast
qed

text \<open>
  C10. For every file name and every non-empty extension without a dot, \<open>find_ext\<close>
  applied to the result of \<open>replace_ext\<close> returns true and extracts that extension.
\<close>

theorem find_ext_replace_ext_roundtrip:
  assumes "CHR ''.'' \<notin> set e" and "e \<noteq> []"
  shows "\<exists>g. replace_ext f e = Inr g \<and> find_ext g = Inr (True, e)"
proof -
  from replace_ext_cases [of f e] obtain pre
    where first: "replace_ext f e = Inr (pre @ ''.'' @ e)" by auto
  from assms(1) have "find_ext (pre @ ''.'' @ e) = Inr (True, e)"
    by (rule find_ext_last_dot)
  with first show ?thesis by blast
qed

text \<open>
  Witness for C10.
\<close>

theorem find_ext_replace_ext_roundtrip_witness:
  "CHR ''.'' \<notin> set ''ogg'' \<and> ''ogg'' \<noteq> [] \<and>
   (\<exists>g. replace_ext ''a.b.wav'' ''ogg'' = Inr g \<and> find_ext g = Inr (True, ''ogg''))"
proof -
  have h1: "CHR ''.'' \<notin> set ''ogg''" by simp
  have h2: "''ogg'' \<noteq> []" by simp
  from find_ext_replace_ext_roundtrip [OF h1 h2, of "''a.b.wav''"] h1 h2
  show ?thesis by blast
qed

section \<open>Trailing separator\<close>

text \<open>
  On a non-empty path \<open>append_sep\<close> returns the path with a slash appended exactly
  when it does not end in one.
\<close>

lemma append_sep_nonempty:
  "path \<noteq> [] \<Longrightarrow>
   append_sep path = Inr (if last path = CHR ''/'' then path else path @ ''/'')"
  by (simp add: append_sep_def)

text \<open>
  C6. The claim is that \<open>append_sep\<close> returns a value on every path string, the empty
  one included. On the empty string the code calls \<open>back()\<close>, whose behaviour is then
  undefined: the model's result is the fault, not a string.
\<close>

theorem append_sep_empty_undefined:
  "append_sep [] = Inl UndefinedBehaviour"
  by (simp add: append_sep_def)

section \<open>The format catalogue\<close>

lemma get_filetype_literals:
  "get_filetype ''mp3'' = FILETYPE_MP3"
  "get_filetype ''mp4'' = FILETYPE_MP4"
  "get_filetype ''wav'' = FILETYPE_WAV"
  "get_filetype ''ogg'' = FILETYPE_OGG"
  "get_filetype ''webm'' = FILETYPE_WEBM"
  "get_filetype ''mov'' = FILETYPE_MOV"
  "get_filetype ''aiff'' = FILETYPE_AIFF"
  "get_filetype ''opus'' = FILETYPE_OPUS"
  "get_filetype ''prores'' = FILETYPE_PRORES"
  by code_simp+

lemma get_filetype_canonical_token:
  "ft \<noteq> FILETYPE_UNKNOWN \<Longrightarrow> get_filetype (canonical_token ft) = ft"
  by (cases ft) (simp_all add: get_filetype_literals)

lemma get_codecs_recognised:
  assumes "get_filetype d \<noteq> FILETYPE_UNKNOWN"
  shows "fst (get_codecs d f) = - 1"
    and "m_filetype (snd (get_codecs d f)) = get_filetype d"
    and "m_desttype (snd (get_codecs d f)) = d"
    and "m_format_name (snd (get_codecs d f)) \<noteq> []"
    and "m_audio_codec_id (snd (get_codecs d f)) \<noteq> AV_CODEC_ID_NONE"
    and "snd (get_codecs d f') = snd (get_codecs d f)"
  using assms
  by (cases "get_filetype d"; cases f; cases f'; simp add: get_codecs_def)+

lemma get_codecs_unknown:
  assumes "get_filetype d = FILETYPE_UNKNOWN"
  shows "get_codecs d f = (0, f)"
  using assms by (simp add: get_codecs_def)

text \<open>
  C7. For every file type other than \<open>FILETYPE_UNKNOWN\<close>, \<open>get_filetype\<close> maps its
  token back to it, and \<open>get_codecs\<close> on that token stores exactly that file type, a
  non-empty format name and an audio codec other than \<open>AV_CODEC_ID_NONE\<close>; the format
  name may differ from the token: for \<open>"prores"\<close> it is \<open>"mov"\<close>.
\<close>

theorem catalog_totality:
  assumes "ft \<noteq> FILETYPE_UNKNOWN"
  shows "get_filetype (canonical_token ft) = ft \<and>
         m_filetype (snd (get_codecs (canonical_token ft) fmt)) = ft \<and>
         m_format_name (snd (get_codecs (canonical_token ft) fmt)) \<noteq> [] \<and>
         m_audio_codec_id (snd (get_codecs (canonical_token ft) fmt)) \<noteq> AV_CODEC_ID_NONE \<and>
         m_format_name (snd (get_codecs ''prores'' fmt)) = ''mov''"
proof -
  have tok: "get_filetype (canonical_token ft) = ft"
    using assms by (rule get_filetype_canonical_token)
  then have known: "get_filetype (canonical_token ft) \<noteq> FILETYPE_UNKNOWN"
    using assms by simp
  have "m_format_name (snd (get_codecs ''prores'' fmt)) = ''mov''"
    by (simp add: get_codecs_def get_filetype_literals)
  with tok get_codecs_recognised(2,4,5) [OF known, of fmt] show ?thesis by simp
qed

text \<open>
  Witness for C7, at \<open>FILETYPE_WEBM\<close>.
\<close>

theorem catalog_totality_witness:
  "FILETYPE_WEBM \<noteq> FILETYPE_UNKNOWN \<and>
   get_filetype ''webm'' = FILETYPE_WEBM \<and>
   m_filetype (snd (get_codecs ''webm'' blank_format)) = FILETYPE_WEBM \<and>
   m_format_name (snd (get_codecs ''webm'' blank_format)) \<noteq> [] \<and>
   m_audio_codec_id (snd (get_codecs ''webm'' blank_format)) \<noteq> AV_CODEC_ID_NONE"
proof -
  have h: "FILETYPE_WEBM \<noteq> FILETYPE_UNKNOWN" by simp
  from catalog_totality [OF h, of blank_format] h show ?thesis by simp
qed

text \<open>
  C9. \<open>get_codecs\<close> returns 0 exactly when the token is not recognised, and then leaves
  the format object as it was; for every recognised token it returns -1 although it has
  filled the format object completely: the result does not depend on what the object
  held before, the token and the file type are stored, the format name is not empty, the
  audio codec is not \<open>AV_CODEC_ID_NONE\<close>, and file type, audio codec, video codec and
  format name are one row of the table of the nine formats.
\<close>

theorem get_codecs_status:
  "(fst (get_codecs d f) = 0 \<longleftrightarrow> get_filetype d = FILETYPE_UNKNOWN) \<and>
   (get_filetype d = FILETYPE_UNKNOWN \<longrightarrow> snd (get_codecs d f) = f) \<and>
   (get_filetype d \<noteq> FILETYPE_UNKNOWN \<longrightarrow>
      fst (get_codecs d f) = - 1 \<and>
      (\<forall>f'. snd (get_codecs d f') = snd (get_codecs d f)) \<and>
      m_desttype (snd (get_codecs d f)) = d \<and>
      m_filetype (snd (get_codecs d f)) = get_filetype d \<and>
      m_format_name (snd (get_codecs d f)) \<noteq> [] \<and>
      m_audio_codec_id (snd (get_codecs d f)) \<noteq> AV_CODEC_ID_NONE \<and>
      (m_filetype (snd (get_codecs d f)), m_audio_codec_id (snd (get_codecs d f)),
       m_video_codec_id (snd (get_codecs d f)), m_format_name (snd (get_codecs d f)))
        \<in> set [(FILETYPE_MP3, AV_CODEC_ID_MP3, AV_CODEC_ID_NONE, ''mp3''),
                (FILETYPE_MP4, AV_CODEC_ID_AAC, AV_CODEC_ID_H264, ''mp4''),
                (FILETYPE_WAV, AV_CODEC_ID_PCM_S16LE, AV_CODEC_ID_NONE, ''wav''),
                (FILETYPE_OGG, AV_CODEC_ID_VORBIS, AV_CODEC_ID_THEORA, ''ogg''),
                (FILETYPE_WEBM, AV_CODEC_ID_OPUS, AV_CODEC_ID_VP9, ''webm''),
                (FILETYPE_MOV, AV_CODEC_ID_AAC, AV_CODEC_ID_H264, ''mov''),
                (FILETYPE_AIFF, AV_CODEC_ID_PCM_S16BE, AV_CODEC_ID_NONE, ''aiff''),
                (FILETYPE_OPUS, AV_CODEC_ID_OPUS, AV_CODEC_ID_NONE, ''opus''),
                (FILETYPE_PRORES, AV_CODEC_ID_PCM_S16LE, AV_CODEC_ID_PRORES, ''mov'')])"
proof (cases "get_filetype d = FILETYPE_UNKNOWN")
  case True
  then show ?thesis by (simp add: get_codecs_unknown)
next
  case False
  have table: "(m_filetype (snd (get_codecs d f)), m_audio_codec_id (snd (get_codecs d f)),
       m_video_codec_id (snd (get_codecs d f)), m_format_name (snd (get_codecs d f)))
        \<in> set [(FILETYPE_MP3, AV_CODEC_ID_MP3, AV_CODEC_ID_NONE, ''mp3''),
                (FILETYPE_MP4, AV_CODEC_ID_AAC, AV_CODEC_ID_H264, ''mp4''),
                (FILETYPE_WAV, AV_CODEC_ID_PCM_S16LE, AV_CODEC_ID_NONE, ''wav''),
                (FILETYPE_OGG, AV_CODEC_ID_VORBIS, AV_CODEC_ID_THEORA, ''ogg''),
                (FILETYPE_WEBM, AV_CODEC_ID_OPUS, AV_CODEC_ID_VP9, ''webm''),
                (FILETYPE_MOV, AV_CODEC_ID_AAC, AV_CODEC_ID_H264, ''mov''),
                (FILETYPE_AIFF, AV_CODEC_ID_PCM_S16BE, AV_CODEC_ID_NONE, ''aiff''),
                (FILETYPE_OPUS, AV_CODEC_ID_OPUS, AV_CODEC_ID_NONE, ''opus''),
                (FILETYPE_PRORES, AV_CODEC_ID_PCM_S16LE, AV_CODEC_ID_PRORES, ''mov'')]"
    using False by (cases "get_filetype d") (simp_all add: get_codecs_def)
  from get_codecs_recognised [OF False] False table show ?thesis by simp
qed

text \<open>
  Witness for C9: an unknown token leaves the object alone, and a recognised one in mixed
  case fills all five members.
\<close>

theorem get_codecs_status_witness:
  "get_filetype ''flac'' = FILETYPE_UNKNOWN \<and>
   get_codecs ''flac'' blank_format = (0, blank_format) \<and>
   get_filetype ''Mp4'' \<noteq> FILETYPE_UNKNOWN \<and>
   get_codecs ''Mp4'' blank_format =
     (- 1, \<lparr>m_desttype = ''Mp4'', m_audio_codec_id = AV_CODEC_ID_AAC,
            m_video_codec_id = AV_CODEC_ID_H264, m_filetype = FILETYPE_MP4,
            m_format_name = ''mp4''\<rparr>)"
proof -
  have u: "get_filetype ''flac'' = FILETYPE_UNKNOWN"
    by code_simp
  have k: "get_filetype ''Mp4'' = FILETYPE_MP4"
    by code_simp
  from get_codecs_status [of "''flac''" blank_format] u
  have a: "get_codecs ''flac'' blank_format = (0, blank_format)"
    by (simp add: prod_eq_iff)
  from get_codecs_status [of "''Mp4''" blank_format] k
  have "fst (get_codecs ''Mp4'' blank_format) = - 1 \<and>
        m_desttype (snd (get_codecs ''Mp4'' blank_format)) = ''Mp4'' \<and>
        m_filetype (snd (get_codecs ''Mp4'' blank_format)) = FILETYPE_MP4 \<and>
        m_audio_codec_id (snd (get_codecs ''Mp4'' blank_format)) = AV_CODEC_ID_AAC \<and>
        m_video_codec_id (snd (get_codecs ''Mp4'' blank_format)) = AV_CODEC_ID_H264 \<and>
        m_format_name (snd (get_codecs ''Mp4'' blank_format)) = ''mp4''"
    by auto
  then have b: "get_codecs ''Mp4'' blank_format =
     (- 1, \<lparr>m_desttype = ''Mp4'', m_audio_codec_id = AV_CODEC_ID_AAC,
            m_video_codec_id = AV_CODEC_ID_H264, m_filetype = FILETYPE_MP4,
            m_format_name = ''mp4''\<rparr>)"
    by (cases "get_codecs ''Mp4'' blank_format") simp
  from a b u k show ?thesis by simp
qed

section \<open>Resolving a list of destination types\<close>

lemma get_filetype_from_list_loop_unknown:
  "get_filetype_from_list_loop ts FILETYPE_UNKNOWN = FILETYPE_UNKNOWN"
  by (cases ts) simp_all

lemma get_filetype_from_list_always_unknown:
  "get_filetype_from_list desttypelist = FILETYPE_UNKNOWN"
  by (simp add: get_filetype_from_list_def get_filetype_from_list_loop_unknown)

text \<open>
  C1. The claim is that the first token with a known file type decides, so that
  \<open>"xyz,mp3,mp4"\<close> resolves to \<open>FILETYPE_MP3\<close>. The loop condition asks for
  \<open>filetype != FILETYPE_UNKNOWN\<close> while \<open>filetype\<close> starts as \<open>FILETYPE_UNKNOWN\<close>,
  so no token is ever looked up: the list splits into its three tokens, the second is
  the MP3 token, and the result is \<open>FILETYPE_UNKNOWN\<close>.
\<close>

theorem get_filetype_from_list_precedence_lost:
  "split ''xyz,mp3,mp4'' CHR '','' = [''xyz'', ''mp3'', ''mp4''] \<and>
   get_filetype ''xyz'' = FILETYPE_UNKNOWN \<and>
   get_filetype ''mp3'' = FILETYPE_MP3 \<and>
   get_filetype_from_list ''xyz,mp3,mp4'' = FILETYPE_UNKNOWN"
  by (simp add: get_filetype_from_list_def split_def get_filetype_def strcasecmp_def
      c_str_def tolower_def)

section \<open>Destination names\<close>

lemma c_str_no_nul: "CHR 0x00 \<notin> set s \<Longrightarrow> c_str s = s"
  by (auto simp: c_str_def takeWhile_eq_all_conv)

lemma strip_slashes_last: "s \<noteq> [] \<Longrightarrow> last s \<noteq> CHR ''/'' \<Longrightarrow> strip_slashes s = s"
  by (cases s rule: rev_cases) (simp_all add: strip_slashes_def)

lemma basename_of_dir_slash_base:
  assumes "b \<noteq> []" and "CHR ''/'' \<notin> set b"
  shows "basename (d @ CHR ''/'' # b) = b"
proof -
  from assms have lastb: "last b \<noteq> CHR ''/''"
    using last_in_set by metis
  with assms(1) have strip: "strip_slashes (d @ CHR ''/'' # b) = d @ CHR ''/'' # b"
    by (simp add: strip_slashes_last)
  from assms(2) have all: "\<forall>c\<in>set (rev b). c \<noteq> CHR ''/''" by auto
  then have "takeWhile (\<lambda>c. c \<noteq> CHR ''/'') (rev b @ CHR ''/'' # rev d) = rev b"
    by (simp add: takeWhile_tail takeWhile_eq_all_conv)
  then have "rev (takeWhile (\<lambda>c. c \<noteq> CHR ''/'') (rev (d @ CHR ''/'' # b))) = b"
    by simp
  with strip assms(1) show ?thesis by (simp add: basename_def)
qed

lemma replace_ext_returns: "\<exists>r. replace_ext f e = Inr r"
  using replace_ext_cases [of f e] by auto

text \<open>
  The base name of a path with a byte other than a slash is its last component: it is not
  empty and has no slash, what precedes it is empty or ends in a slash, and only slashes
  follow it.
\<close>

lemma rev_split_while: "xs = rev (dropWhile P (rev xs)) @ rev (takeWhile P (rev xs))"
proof -
  have "rev xs = rev (rev (dropWhile P (rev xs)) @ rev (takeWhile P (rev xs)))"
    by simp
  then show ?thesis by (simp only: rev_is_rev_conv)
qed

lemma strip_slashes_split: "\<exists>t. p = strip_slashes p @ t \<and> set t \<subseteq> {CHR ''/''}"
proof -
  let ?P = "\<lambda>c. c = CHR ''/''"
  have "p = strip_slashes p @ rev (takeWhile ?P (rev p))"
    unfolding strip_slashes_def by (rule rev_split_while)
  moreover have "set (rev (takeWhile ?P (rev p))) \<subseteq> {CHR ''/''}"
    by (auto dest: set_takeWhileD)
  ultimately show ?thesis by blast
qed

lemma strip_slashes_keeps: "\<exists>c\<in>set p. c \<noteq> CHR ''/'' \<Longrightarrow> strip_slashes p \<noteq> []"
  by (auto simp: strip_slashes_def dropWhile_eq_Nil_conv)

lemma strip_slashes_ends: "strip_slashes p \<noteq> [] \<Longrightarrow> last (strip_slashes p) \<noteq> CHR ''/''"
proof -
  assume ne: "strip_slashes p \<noteq> []"
  then have d: "dropWhile (\<lambda>c. c = CHR ''/'') (rev p) \<noteq> []"
    by (simp add: strip_slashes_def)
  from hd_dropWhile [OF d] have "hd (dropWhile (\<lambda>c. c = CHR ''/'') (rev p)) \<noteq> CHR ''/''" .
  with d show ?thesis by (simp add: strip_slashes_def last_rev)
qed

lemma basename_last_component:
  assumes "\<exists>c\<in>set p. c \<noteq> CHR ''/''"
  shows "basename p \<noteq> [] \<and> CHR ''/'' \<notin> set (basename p) \<and>
         (\<exists>d t. p = d @ basename p @ t \<and> (d = [] \<or> last d = CHR ''/'') \<and>
                set t \<subseteq> {CHR ''/''})"
proof -
  let ?Q = "\<lambda>c. c \<noteq> CHR ''/''"
  let ?s = "strip_slashes p"
  from assms have pne: "p \<noteq> []" by auto
  from assms have sne: "?s \<noteq> []" by (rule strip_slashes_keeps)
  with pne have b: "basename p = rev (takeWhile ?Q (rev ?s))"
    by (simp add: basename_def)
  from sne have "last ?s \<noteq> CHR ''/''" by (rule strip_slashes_ends)
  with sne have "?Q (hd (rev ?s))" by (simp add: hd_rev)
  moreover from sne have "rev ?s \<noteq> []" by simp
  ultimately have "takeWhile ?Q (rev ?s) \<noteq> []"
    by (cases "rev ?s") simp_all
  with b have ne: "basename p \<noteq> []" by simp
  have noslash: "CHR ''/'' \<notin> set (basename p)"
    unfolding b by (auto dest: set_takeWhileD)
  let ?d = "rev (dropWhile ?Q (rev ?s))"
  have s: "?s = ?d @ basename p"
    unfolding b by (rule rev_split_while)
  have dend: "?d = [] \<or> last ?d = CHR ''/''"
  proof (cases "dropWhile ?Q (rev ?s) = []")
    case True
    then show ?thesis by simp
  next
    case False
    from hd_dropWhile [OF False] have "hd (dropWhile ?Q (rev ?s)) = CHR ''/''" by simp
    with False show ?thesis by (simp add: last_rev)
  qed
  from strip_slashes_split [of p] obtain t where t: "p = ?s @ t" "set t \<subseteq> {CHR ''/''}"
    by blast
  from t(1) s have "p = ?d @ basename p @ t" by (metis append_assoc)
  with dend t(2) have "\<exists>d t. p = d @ basename p @ t \<and> (d = [] \<or> last d = CHR ''/'') \<and>
      set t \<subseteq> {CHR ''/''}"
    by blast
  with ne noslash show ?thesis by blast
qed

text \<open>
  After a slash-free name \<open>replace_ext\<close> leaves a name that does not begin with a slash.
\<close>

lemma replace_ext_head:
  assumes "b \<noteq> []" and "CHR ''/'' \<notin> set b" and "replace_ext b e = Inr r"
  shows "r \<noteq> [] \<and> hd r \<noteq> CHR ''/''"
proof -
  from replace_ext_cases [of b e] assms(3)
  consider "r = b @ ''.'' @ e"
    | pre post where "b = pre @ ''.'' @ post" "r = pre @ ''.'' @ e"
    by auto
  then show ?thesis
  proof cases
    case 1
    with assms(1,2) show ?thesis by (cases b) auto
  next
    case 2
    with assms(2) show ?thesis by (cases pre) auto
  qed
qed

text \<open>
  Counterexample to C3 as stated: with the mount path \<open>"/mnt"\<close> no separator stands
  between mount path and file name, and for the source path \<open>"/"\<close> the file name itself
  begins with a slash, so that two stand there even with the mount path \<open>"/mnt/"\<close>.
\<close>

theorem get_destname_mount_counterexample:
  "get_destname (mp3_params ''/mnt'') ''/src/music/track.flac'' = Inr ''/mnttrack.mp3'' \<and>
   get_destname (mp3_params ''/mnt'') ''/src/music/track.flac'' \<noteq> Inr ''/mnt/track.mp3'' \<and>
   get_destname (mp3_params ''/mnt/'') ''/'' = Inr ''/mnt//.mp3''"
  by (simp add: get_destname_def mp3_params_def remove_path_def basename_def c_str_def
      strip_slashes_def replace_ext_def substr_def get_codecs_def get_filetype_literals)

text \<open>
  C3, amended. For every mount path and format and every source path that does not
  consist of slashes only, \<open>get_destname\<close> takes the last component of the source path
  (the directory stripped; a dot for the empty path), replaces its extension with the
  format name, which gives a non-empty name that does not begin with a separator, and
  puts the mount path before it as it is, adding no separator. So when the mount path
  ends in exactly one separator, exactly one separator stands between mount path and
  file name. The second part gives the last component of a path that ends in a slash and
  a non-empty, slash-free name.
\<close>

theorem get_destname_shape:
  "(set (c_str filename) \<noteq> {CHR ''/''} \<longrightarrow>
      (\<exists>r. replace_ext (remove_path filename)
              (m_format_name (current_format params filename)) = Inr r \<and>
           r \<noteq> [] \<and> hd r \<noteq> CHR ''/'' \<and>
           get_destname params filename = Inr (m_mountpath params @ r) \<and>
           (\<forall>m. m_mountpath params = m @ ''/'' \<and> (m = [] \<or> last m \<noteq> CHR ''/'') \<longrightarrow>
              get_destname params filename = Inr (m @ ''/'' @ r))) \<and>
      remove_path filename \<noteq> [] \<and> CHR ''/'' \<notin> set (remove_path filename) \<and>
      (c_str filename = [] \<and> remove_path filename = ''.'' \<or>
       (\<exists>d t. c_str filename = d @ remove_path filename @ t \<and>
              (d = [] \<or> last d = CHR ''/'') \<and> set t \<subseteq> {CHR ''/''}))) \<and>
   (b \<noteq> [] \<and> CHR ''/'' \<notin> set b \<and> CHR 0x00 \<notin> set d \<and> CHR 0x00 \<notin> set b \<longrightarrow>
      remove_path (d @ ''/'' @ b) = b)"
proof -
  have first: "(\<exists>r. replace_ext (remove_path filename)
              (m_format_name (current_format params filename)) = Inr r \<and>
           r \<noteq> [] \<and> hd r \<noteq> CHR ''/'' \<and>
           get_destname params filename = Inr (m_mountpath params @ r) \<and>
           (\<forall>m. m_mountpath params = m @ ''/'' \<and> (m = [] \<or> last m \<noteq> CHR ''/'') \<longrightarrow>
              get_destname params filename = Inr (m @ ''/'' @ r))) \<and>
      remove_path filename \<noteq> [] \<and> CHR ''/'' \<notin> set (remove_path filename) \<and>
      (c_str filename = [] \<and> remove_path filename = ''.'' \<or>
       (\<exists>d t. c_str filename = d @ remove_path filename @ t \<and>
              (d = [] \<or> last d = CHR ''/'') \<and> set t \<subseteq> {CHR ''/''}))"
    if notslashes: "set (c_str filename) \<noteq> {CHR ''/''}"
  proof -
    have base: "remove_path filename \<noteq> [] \<and> CHR ''/'' \<notin> set (remove_path filename) \<and>
      (c_str filename = [] \<and> remove_path filename = ''.'' \<or>
       (\<exists>d t. c_str filename = d @ remove_path filename @ t \<and>
              (d = [] \<or> last d = CHR ''/'') \<and> set t \<subseteq> {CHR ''/''}))"
    proof (cases "c_str filename = []")
      case True
      then show ?thesis by (simp add: remove_path_def basename_def)
    next
      case False
      with notslashes have "\<exists>c\<in>set (c_str filename). c \<noteq> CHR ''/''"
        by (cases "c_str filename") auto
      from basename_last_component [OF this] show ?thesis
        by (simp add: remove_path_def)
    qed
    obtain r where r: "replace_ext (remove_path filename)
        (m_format_name (current_format params filename)) = Inr r"
      using replace_ext_returns by blast
    from base r have hd: "r \<noteq> [] \<and> hd r \<noteq> CHR ''/''"
      using replace_ext_head by blast
    from r have dest: "get_destname params filename = Inr (m_mountpath params @ r)"
      by (simp add: get_destname_def)
    then have "\<forall>m. m_mountpath params = m @ ''/'' \<and> (m = [] \<or> last m \<noteq> CHR ''/'') \<longrightarrow>
              get_destname params filename = Inr (m @ ''/'' @ r)"
      by simp
    with r hd dest base show ?thesis by blast
  qed
  have second: "remove_path (d @ ''/'' @ b) = b"
    if "b \<noteq> []" "CHR ''/'' \<notin> set b" "CHR 0x00 \<notin> set d" "CHR 0x00 \<notin> set b"
  proof -
    from that(3,4) have "c_str (d @ CHR ''/'' # b) = d @ CHR ''/'' # b"
      by (simp add: c_str_no_nul)
    with that(1,2) show ?thesis
      by (simp add: remove_path_def basename_of_dir_slash_base)
  qed
  from first second show ?thesis by blast
qed

text \<open>
  Witness for C3: with the mount path \<open>"/mnt/"\<close> the destination of
  \<open>"/src/music/track.flac"\<close> is \<open>"/mnt/track.mp3"\<close>.
\<close>

theorem get_destname_shape_witness:
  "set (c_str ''/src/music/track.flac'') \<noteq> {CHR ''/''} \<and>
   get_destname (mp3_params ''/mnt/'') ''/src/music/track.flac'' = Inr ''/mnt/track.mp3''"
proof -
  note shape = get_destname_shape [of "''/src/music/track.flac''" "mp3_params ''/mnt/''"
      "''track.flac''" "''/src/music''"]
  have notslashes: "set (c_str ''/src/music/track.flac'') \<noteq> {CHR ''/''}"
    by (auto simp: c_str_def)
  have hyp: "''track.flac'' \<noteq> [] \<and> CHR ''/'' \<notin> set ''track.flac'' \<and>
      CHR 0x00 \<notin> set ''/src/music'' \<and> CHR 0x00 \<notin> set ''track.flac''"
    by simp
  from shape have "''track.flac'' \<noteq> [] \<and> CHR ''/'' \<notin> set ''track.flac'' \<and>
      CHR 0x00 \<notin> set ''/src/music'' \<and> CHR 0x00 \<notin> set ''track.flac'' \<longrightarrow>
      remove_path (''/src/music'' @ ''/'' @ ''track.flac'') = ''track.flac''"
    by (rule conjunct2)
  from this hyp have "remove_path (''/src/music'' @ ''/'' @ ''track.flac'') = ''track.flac''"
    by (rule mp)
  then have base: "remove_path ''/src/music/track.flac'' = ''track.flac''"
    by simp
  have fmt: "m_format_name (current_format (mp3_params ''/mnt/'') ''/src/music/track.flac'')
      = ''mp3''"
    by (simp add: mp3_params_def get_codecs_def get_filetype_literals)
  have ext: "replace_ext ''track.flac'' ''mp3'' = Inr ''track.mp3''"
    by (simp add: replace_ext_def substr_def)
  have mount: "m_mountpath (mp3_params ''/mnt/'') = ''/mnt'' @ ''/'' \<and>
      (''/mnt'' = [] \<or> last ''/mnt'' \<noteq> CHR ''/'')"
    by (simp add: mp3_params_def)
  from shape [THEN conjunct1, THEN mp, OF notslashes, THEN conjunct1]
  obtain r where r: "replace_ext (remove_path ''/src/music/track.flac'')
          (m_format_name (current_format (mp3_params ''/mnt/'') ''/src/music/track.flac''))
          = Inr r"
    and one: "\<forall>m. m_mountpath (mp3_params ''/mnt/'') = m @ ''/'' \<and>
          (m = [] \<or> last m \<noteq> CHR ''/'') \<longrightarrow>
          get_destname (mp3_params ''/mnt/'') ''/src/music/track.flac'' = Inr (m @ ''/'' @ r)"
    by (elim exE conjE)
  from r have "r = ''track.mp3''"
    unfolding base fmt ext by simp
  moreover from one [THEN spec, THEN mp, OF mount]
  have "get_destname (mp3_params ''/mnt/'') ''/src/music/track.flac''
      = Inr (''/mnt'' @ ''/'' @ r)" .
  ultimately have "get_destname (mp3_params ''/mnt/'') ''/src/music/track.flac''
      = Inr ''/mnt/track.mp3''"
    by simp
  with notslashes show ?thesis by (rule conjI)
qed

section \<open>Directory trees\<close>

text \<open>
  Whenever every directory on the way exists already and the path fits the buffer, the
  loop ends with the status -1, whatever the components are.
\<close>

lemma mktree_loop_all_exist:
  assumes ex: "\<And>d. mkdir fs d mode = ((- 1, EEXIST), fs)"
  shows "ps \<noteq> [] \<Longrightarrow>
         length dir + length (concat (map (\<lambda>p. CHR ''/'' # p) ps)) < PATH_MAX \<Longrightarrow>
         mktree_loop mkdir mode fs dir status ps = Inr (- 1, fs)"
proof (induction ps arbitrary: dir status)
  case Nil
  then show ?case by simp
next
  case (Cons p ps)
  let ?dir = "(dir @ ''/'') @ p"
  from Cons.prems(2) have fits: "\<not> PATH_MAX \<le> length ?dir" by simp
  show ?case
  proof (cases "ps = []")
    case True
    with fits show ?thesis by (simp add: ex)
  next
    case False
    from Cons.prems(2)
    have "length ?dir + length (concat (map (\<lambda>p. CHR ''/'' # p) ps)) < PATH_MAX"
      by simp
    from Cons.IH [OF False this, of "- 1"]
    have "mktree_loop mkdir mode fs ?dir (- 1) ps = Inr (- 1, fs)" .
    with fits show ?thesis by (simp add: ex)
  qed
qed

text \<open>
  C2. The claim is that \<open>mktree\<close> reports success when the components exist already,
  so that two calls in a row on \<open>"/a/b/c"\<close> both succeed. The first call creates the
  three directories in order and returns 0. In the second call every \<open>mkdir\<close> fails
  with \<open>EEXIST\<close>; the loop stores that return value in \<open>status\<close>, and the call
  returns -1.
\<close>

theorem mktree_second_call_status:
  "mktree mkdir_dirs [] ''/a/b/c'' 0x1ED = Inr (0, [''/a'', ''/a/b'', ''/a/b/c'']) \<and>
   mktree mkdir_dirs [''/a'', ''/a/b'', ''/a/b/c''] ''/a/b/c'' 0x1ED
     = Inr (- 1, [''/a'', ''/a/b'', ''/a/b/c''])"
  by (simp add: mktree_def strtok_all_def c_str_def mkdir_dirs_def dirname_def
      strip_slashes_def before_last_slash_def PATH_MAX_def EEXIST_def ENOENT_def)

section \<open>Mount points\<close>

text \<open>
  The test \<open>st_mode & S_IFDIR\<close> of \<open>is_mount\<close> lets a directory pass and stops a
  regular file.
\<close>

lemma S_ISDIR_bit: "S_ISDIR m \<Longrightarrow> m AND S_IFDIR \<noteq> 0"
proof -
  assume "S_ISDIR m"
  then have eq: "m AND 0xF000 = (0x4000 :: 32 word)"
    by (simp add: S_ISDIR_def S_IFMT_def S_IFDIR_def)
  have "m AND 0x4000 = (m AND 0xF000) AND (0x4000 :: 32 word)"
    by (simp add: and.assoc)
  also have "\<dots> = 0x4000" by (simp add: eq)
  finally show ?thesis by (simp add: S_IFDIR_def)
qed

lemma S_ISREG_bit: "S_ISREG m \<Longrightarrow> m AND S_IFDIR = 0"
proof -
  assume "S_ISREG m"
  then have eq: "m AND 0xF000 = (0x8000 :: 32 word)"
    by (simp add: S_ISREG_def S_IFMT_def S_IFREG_def)
  have "m AND 0x4000 = (m AND 0xF000) AND (0x4000 :: 32 word)"
    by (simp add: and.assoc)
  also have "\<dots> = 0" by (simp add: eq)
  finally show ?thesis by (simp add: S_IFDIR_def)
qed

text \<open>
  Counterexample to C4 as stated: a regular file in an ordinary directory does not give
  0 (not a mount point) but -1, the value a failed \<open>stat\<close> gives.
\<close>

theorem is_mount_regular_file_counterexample:
  "stat_tree ''/home/notes.txt''
     = Some \<lparr>st_dev = 2049, st_ino = 57, st_mode = S_IFREG OR 0x1A4\<rparr> \<and>
   S_ISREG (S_IFREG OR 0x1A4) \<and>
   is_mount stat_tree ''/home/notes.txt'' = - 1"
  by (simp add: is_mount_def stat_tree_def c_str_def dirname_def strip_slashes_def
      before_last_slash_def S_IFDIR_def S_IFREG_def S_ISREG_def S_IFMT_def)

text \<open>
  C4, amended. \<open>is_mount\<close> returns 1 for a directory whose device id differs from its
  parent's or whose device and inode both equal its parent's, and 0 for a directory on
  its parent's device with another inode. It returns -1, distinct from both, when
  \<open>stat\<close> fails on the path or on the parent of a directory, and also for a regular
  file, which is reported as an error and not as "not a mount point".
\<close>

theorem is_mount_outcomes:
  "(stat_call (c_str f) = None \<longrightarrow> is_mount stat_call f = - 1) \<and>
   (\<forall>fs. stat_call (c_str f) = Some fs \<and> S_ISREG (st_mode fs) \<longrightarrow>
      is_mount stat_call f = - 1) \<and>
   (\<forall>fs. stat_call (c_str f) = Some fs \<and> S_ISDIR (st_mode fs) \<and>
      stat_call (dirname (c_str f)) = None \<longrightarrow> is_mount stat_call f = - 1) \<and>
   (\<forall>fs ps. stat_call (c_str f) = Some fs \<and> S_ISDIR (st_mode fs) \<and>
      stat_call (dirname (c_str f)) = Some ps \<longrightarrow>
      (st_dev fs \<noteq> st_dev ps \<longrightarrow> is_mount stat_call f = 1) \<and>
      (st_dev fs = st_dev ps \<and> st_ino fs = st_ino ps \<longrightarrow> is_mount stat_call f = 1) \<and>
      (st_dev fs = st_dev ps \<and> st_ino fs \<noteq> st_ino ps \<longrightarrow> is_mount stat_call f = 0))"
  by (auto simp: is_mount_def dest: S_ISDIR_bit S_ISREG_bit)

text \<open>
  Witness for C4: a missing path, a regular file, a directory on a device of its own, the
  root, and an ordinary directory.
\<close>

theorem is_mount_outcomes_witness:
  "is_mount stat_tree ''/lost'' = - 1 \<and>
   is_mount stat_tree ''/home/notes.txt'' = - 1 \<and>
   is_mount stat_tree ''/mnt/usb'' = 1 \<and>
   is_mount stat_tree ''/'' = 1 \<and>
   is_mount stat_tree ''/home'' = 0"
proof -
  have cs: "c_str ''/lost'' = ''/lost''" "c_str ''/home/notes.txt'' = ''/home/notes.txt''"
    "c_str ''/mnt/usb'' = ''/mnt/usb''" "c_str ''/'' = ''/''" "c_str ''/home'' = ''/home''"
    by (simp_all add: c_str_def)
  have dn: "dirname ''/mnt/usb'' = ''/mnt''" "dirname ''/'' = ''/''" "dirname ''/home'' = ''/''"
    by (simp_all add: dirname_def strip_slashes_def before_last_slash_def)
  have kinds: "S_ISREG (S_IFREG OR 0x1A4)" "S_ISDIR (S_IFDIR OR 0x1ED)"
    by (simp_all add: S_ISREG_def S_ISDIR_def S_IFMT_def S_IFREG_def S_IFDIR_def)
  have a: "is_mount stat_tree ''/lost'' = - 1"
    using is_mount_outcomes [of stat_tree "''/lost''"]
    by (simp add: cs stat_tree_def)
  have b: "is_mount stat_tree ''/home/notes.txt'' = - 1"
    using is_mount_outcomes [of stat_tree "''/home/notes.txt''"] kinds
    by (simp add: cs stat_tree_def)
  have c: "is_mount stat_tree ''/mnt/usb'' = 1"
    using is_mount_outcomes [of stat_tree "''/mnt/usb''"] kinds
    by (simp add: cs dn stat_tree_def)
  have d: "is_mount stat_tree ''/'' = 1"
    using is_mount_outcomes [of stat_tree "''/''"] kinds
    by (simp add: cs dn stat_tree_def)
  have e: "is_mount stat_tree ''/home'' = 0"
    using is_mount_outcomes [of stat_tree "''/home''"] kinds
    by (simp add: cs dn stat_tree_def)
  from a b c d e show ?thesis by simp
qed

end
